theory Spec2Isabelle
  imports Complex_Main
begin

unbundle bit_operations_syntax

section \<open>Strings and whitespace\<close>

text \<open>
  A Python \<^verbatim>\<open>str\<close> is a sequence of code points. It is modelled as a \<^typ>\<open>string\<close>
  whose characters are read as the code points U+0000 .. U+00FF, one \<^typ>\<open>char\<close> per code
  point, so that \<^const>\<open>length\<close> counts what Python's \<^verbatim>\<open>len\<close> counts.

  \<^verbatim>\<open>str.strip()\<close> and the regular expression class \<^verbatim>\<open>\s\<close> (on a \<^verbatim>\<open>str\<close> pattern) use the same
  predicate on code points; in the modelled range it holds for U+0009 .. U+000D,
  U+001C .. U+0020, U+0085 and U+00A0.
\<close>

definition is_space :: "char \<Rightarrow> bool" where
  "is_space c =
     (let k = (of_char c :: nat)
      in (9 \<le> k \<and> k \<le> 13) \<or> (28 \<le> k \<and> k \<le> 32) \<or> k = 133 \<or> k = 160)"

text \<open>\<^verbatim>\<open>s.strip()\<close>: leading and trailing whitespace removed.\<close>

definition strip :: "string \<Rightarrow> string" where
  "strip s = rev (dropWhile is_space (rev (dropWhile is_space s)))"

text \<open>
  \<^verbatim>\<open>WHITESPACE_RE.sub(" ", txt)\<close> with \<^verbatim>\<open>WHITESPACE_RE = re.compile(r"\s+")\<close>: scanning from the
  left, every maximal run of whitespace is replaced by one space.
\<close>

function whitespace_sub :: "string \<Rightarrow> string" where
  "whitespace_sub [] = []"
| "whitespace_sub (c # cs) =
     (if is_space c then CHR '' '' # whitespace_sub (dropWhile is_space cs)
      else c # whitespace_sub cs)"
  by pat_completeness auto
termination
  by (relation "measure length") (auto simp: length_dropWhile_le less_Suc_eq_le)

section \<open>utils.py\<close>

text \<open>
  \<^verbatim>\<open>
  def clean_text(txt: str) -> str:
      return WHITESPACE_RE.sub(" ", txt).strip()
  \<close>
\<close>

definition clean_text :: "string \<Rightarrow> string" where
  "clean_text txt = strip (whitespace_sub txt)"

text \<open>
  \<^verbatim>\<open>text[start:end]\<close> for integers \<^verbatim>\<open>start\<close> and \<^verbatim>\<open>end\<close>: a negative index counts from the
  end of the sequence, and both indices are clamped to the range of the sequence.
\<close>

definition slice_index :: "nat \<Rightarrow> int \<Rightarrow> nat" where
  "slice_index n i = (if i < 0 then nat (max 0 (int n + i)) else min n (nat i))"

definition py_slice :: "'a list \<Rightarrow> int \<Rightarrow> int \<Rightarrow> 'a list" where
  "py_slice xs start stop =
     (let s = slice_index (length xs) start; e = slice_index (length xs) stop
      in take (e - s) (drop s xs))"

text \<open>
  \<^verbatim>\<open>
  def chunk_text(text: str, chunk_size: int = 1200, overlap: int = 200) -> List[str]:
      text = text.strip()
      if not text:
          return []
      chunks = []
      start = 0
      n = len(text)
      while start < n:
          end = min(start + chunk_size, n)
          chunks.append(text[start:end])
          if end == n:
              break
          start = max(0, end - overlap)
      return chunks
  \<close>
  The \<^verbatim>\<open>while\<close> loop is \<open>chunk_loop\<close>, on the loop variables \<^verbatim>\<open>start\<close> and \<^verbatim>\<open>chunks\<close>.
  Nothing in the source bounds the number of iterations, so the loop is a partial
  function: \<^const>\<open>None\<close> is a run that never returns.
\<close>

partial_function (option) chunk_loop ::
  "string \<Rightarrow> int \<Rightarrow> int \<Rightarrow> int \<Rightarrow> string list \<Rightarrow> string list option" where
  "chunk_loop text chunk_size overlap start chunks =
     (if start < int (length text) then
        (if min (start + chunk_size) (int (length text)) = int (length text)
         then Some (chunks @ [py_slice text start (min (start + chunk_size) (int (length text)))])
         else chunk_loop text chunk_size overlap
                (max 0 (min (start + chunk_size) (int (length text)) - overlap))
                (chunks @ [py_slice text start (min (start + chunk_size) (int (length text)))]))
      else Some chunks)"

declare chunk_loop.simps [code]

definition chunk_text :: "string \<Rightarrow> int \<Rightarrow> int \<Rightarrow> string list option" where
  "chunk_text text chunk_size overlap =
     (if strip text = [] then Some []
      else chunk_loop (strip text) chunk_size overlap 0 [])"

section \<open>SHA-256 and the hash object of \<^verbatim>\<open>hashlib\<close>\<close>

text \<open>
  \<^verbatim>\<open>deterministic_id\<close> calls \<^verbatim>\<open>hashlib.sha256\<close>. The function is the one of FIPS 180-4,
  written here on integers: a byte is an \<^typ>\<open>int\<close> in \<open>0 .. 255\<close>, a word an \<^typ>\<open>int\<close> in
  \<open>0 .. 2^32 - 1\<close>, and every addition and left shift is reduced modulo \<open>2^32\<close> by \<open>w32\<close>.
\<close>

definition w32 :: "int \<Rightarrow> int" where
  "w32 x = x mod 4294967296"

definition rotr :: "nat \<Rightarrow> int \<Rightarrow> int" where
  "rotr n x = (x div 2 ^ n) OR w32 (x * 2 ^ (32 - n))"

definition Ch :: "int \<Rightarrow> int \<Rightarrow> int \<Rightarrow> int" where
  "Ch x y z = (x AND y) XOR ((x XOR 4294967295) AND z)"
definition Maj :: "int \<Rightarrow> int \<Rightarrow> int \<Rightarrow> int" where
  "Maj x y z = (x AND y) XOR (x AND z) XOR (y AND z)"
definition bsig0 :: "int \<Rightarrow> int" where
  "bsig0 x = rotr 2 x XOR rotr 13 x XOR rotr 22 x"
definition bsig1 :: "int \<Rightarrow> int" where
  "bsig1 x = rotr 6 x XOR rotr 11 x XOR rotr 25 x"
definition ssig0 :: "int \<Rightarrow> int" where
  "ssig0 x = rotr 7 x XOR rotr 18 x XOR (x div 2 ^ 3)"
definition ssig1 :: "int \<Rightarrow> int" where
  "ssig1 x = rotr 17 x XOR rotr 19 x XOR (x div 2 ^ 10)"

text \<open>
  The round constants (the first 32 bits of the fractional parts of the cube roots of the
  first 64 primes) and the initial hash value (the same of the square roots of the first
  8 primes), in decimal.
\<close>

definition K256 :: "int list" where
  "K256 = [
  1116352408, 1899447441, 3049323471, 3921009573, 961987163, 1508970993, 2453635748, 2870763221,
  3624381080, 310598401, 607225278, 1426881987, 1925078388, 2162078206, 2614888103, 3248222580,
  3835390401, 4022224774, 264347078, 604807628, 770255983, 1249150122, 1555081692, 1996064986,
  2554220882, 2821834349, 2952996808, 3210313671, 3336571891, 3584528711, 113926993, 338241895,
  666307205, 773529912, 1294757372, 1396182291, 1695183700, 1986661051, 2177026350, 2456956037,
  2730485921, 2820302411, 3259730800, 3345764771, 3516065817, 3600352804, 4094571909, 275423344,
  430227734, 506948616, 659060556, 883997877, 958139571, 1322822218, 1537002063, 1747873779,
  1955562222, 2024104815, 2227730452, 2361852424, 2428436474, 2756734187, 3204031479, 3329325298]"

definition H256 :: "int list" where
  "H256 = [1779033703, 3144134277, 1013904242, 2773480762, 1359893119, 2600822924, 528734635, 1541459225]"

text \<open>The \<open>k\<close> bytes of \<open>v\<close>, most significant first.\<close>

definition be_bytes :: "nat \<Rightarrow> int \<Rightarrow> int list" where
  "be_bytes k v = map (\<lambda>i. (v div 256 ^ (k - 1 - i)) mod 256) [0..<k]"

text \<open>
  Padding: the byte \<open>0x80\<close>, zero bytes up to 56 modulo 64, and the length of the
  message in bits as eight bytes.
\<close>

definition pad :: "int list \<Rightarrow> int list" where
  "pad m = m @ [128] @ replicate ((119 - length m mod 64) mod 64) 0 @ be_bytes 8 (8 * int (length m))"

fun words_of :: "int list \<Rightarrow> int list" where
  "words_of (a # b # c # d # r) = (((a * 256 + b) * 256 + c) * 256 + d) # words_of r"
| "words_of _ = []"

text \<open>
  The message schedule, kept most recent word first: \<open>schedule 48\<close> extends the 16 words
  of a block (reversed) to the 64 words \<open>W\<^sub>6\<^sub>3 .. W\<^sub>0\<close>.
\<close>

fun schedule :: "nat \<Rightarrow> int list \<Rightarrow> int list" where
  "schedule 0 ws = ws"
| "schedule (Suc k) ws =
     schedule k (w32 (ssig1 (ws ! 1) + ws ! 6 + ssig0 (ws ! 14) + ws ! 15) # ws)"

text \<open>One round on the working variables \<open>a .. h\<close>, with the round constant and word.\<close>

fun round256 :: "int list \<Rightarrow> (int \<times> int) \<Rightarrow> int list" where
  "round256 [a, b, c, d, e, f, g, h] (k, w) =
     (let t1 = w32 (h + bsig1 e + Ch e f g + k + w);
          t2 = w32 (bsig0 a + Maj a b c)
      in [w32 (t1 + t2), a, b, c, w32 (d + t1), e, f, g])"
| "round256 s _ = s"

definition compress :: "int list \<Rightarrow> int list \<Rightarrow> int list" where
  "compress hs blk = map2 (\<lambda>x y. w32 (x + y)) hs (foldl round256 hs (zip K256 (rev (schedule 48 (rev blk)))))"

fun chunks16 :: "int list \<Rightarrow> int list list" where
  "chunks16 [] = []"
| "chunks16 ws = take 16 ws # chunks16 (drop 16 ws)"

definition sha256 :: "int list \<Rightarrow> int list" where
  "sha256 m = concat (map (be_bytes 4) (foldl compress H256 (chunks16 (words_of (pad m)))))"

text \<open>
  A hash object \<^verbatim>\<open>m = hashlib.sha256()\<close> is the sequence of bytes fed to it so far:
  \<^verbatim>\<open>m.update(b)\<close> appends \<open>b\<close>, and \<^verbatim>\<open>m.hexdigest()\<close> is the digest of the whole sequence in
  lower-case hexadecimal.
\<close>

definition sha256_new :: "int list" where
  "sha256_new = []"

definition sha256_update :: "int list \<Rightarrow> int list \<Rightarrow> int list" where
  "sha256_update m b = m @ b"

definition hex_digit :: "int \<Rightarrow> char" where
  "hex_digit d = ''0123456789abcdef'' ! nat d"

definition hexdigest :: "int list \<Rightarrow> string" where
  "hexdigest m = concat (map (\<lambda>b. [hex_digit (b div 16), hex_digit (b mod 16)]) (sha256 m))"

text \<open>
  \<^verbatim>\<open>s.encode("utf-8")\<close> on the modelled code points: one byte below U+0080, two bytes
  from U+0080 to U+00FF.
\<close>

definition utf8_char :: "char \<Rightarrow> int list" where
  "utf8_char c =
     (let k = (of_char c :: int)
      in if k < 128 then [k] else [192 + k div 64, 128 + k mod 64])"

definition utf8_encode :: "string \<Rightarrow> int list" where
  "utf8_encode s = concat (map utf8_char s)"

text \<open>
  \<^verbatim>\<open>
  def deterministic_id(*parts: Iterable[str]) -> str:
      m = hashlib.sha256()
      for p in parts:
          m.update(str(p).encode("utf-8"))
      return m.hexdigest()[:16]
  \<close>
  Every caller passes strings, on which \<^verbatim>\<open>str\<close> is the identity.
\<close>

definition deterministic_id :: "string list \<Rightarrow> string" where
  "deterministic_id parts =
     take 16 (hexdigest (foldl (\<lambda>m p. sha256_update m (utf8_encode p)) sha256_new parts))"

section \<open>rag.py\<close>

subsection \<open>Environment, errors, collaborators, state\<close>

text \<open>
  The module reads its settings from the environment once, at import time:
  \<^verbatim>\<open>
  GEMINI_API_KEY = os.getenv("GEMINI_API_KEY", "")
  EMBED_MODEL = os.getenv("GEMINI_EMBED_MODEL", "text-embedding-004")
  GEN_MODEL   = os.getenv("GEMINI_GEN_MODEL",   "gemini-2.5-flash")
  \<close>
\<close>

record env =
  GEMINI_API_KEY :: string
  EMBED_MODEL :: string
  GEN_MODEL :: string

text \<open>
  The only exception the module raises itself is the \<^verbatim>\<open>RuntimeError\<close> of
  \<^verbatim>\<open>_ensure_gemini_configured\<close>; \<^verbatim>\<open>IndexError\<close> is what \<^verbatim>\<open>[0]\<close> raises on an empty list;
  every other exception comes out of a collaborator (the Gemini client, the MongoDB
  collection) and is passed on unchanged.
\<close>

datatype error = RuntimeError string | IndexError | CollaboratorError string

type_synonym embedding = "real list"

text \<open>The chunk record written to the store, and the write operation that carries it.\<close>

record metadata =
  doc_name :: "string option"
  page :: "int option"

record chunk_doc =
  doc_id :: string
  chunk_id :: string
  chunk_text_of :: string
  chunk_embedding :: embedding
  chunk_metadata :: metadata

text \<open>
  \<^verbatim>\<open>UpdateOne(filt, {"$set": fields}, upsert=True)\<close> with \<^verbatim>\<open>filt = {"doc_id": .., "chunk_id": ..}\<close>:
  the pair of the filter and the document of fields to set.
\<close>

record update_one =
  filt_doc_id :: string
  filt_chunk_id :: string
  set_fields :: chunk_doc

text \<open>A retrieval hit: a dictionary in which each of the three keys may be missing.\<close>

record hit =
  hit_text :: "string option"
  hit_metadata :: "metadata option"
  hit_score :: "real option"

text \<open>The \<^verbatim>\<open>$vectorSearch\<close> stage of the aggregation pipeline.\<close>

record vector_search_stage =
  queryVector :: embedding
  numCandidates :: int
  limit :: int

text \<open>
  The external collaborators, as the module calls them:
  \<^item> \<^verbatim>\<open>genai.embed_content(model=.., content=..)["embedding"]\<close>;
  \<^item> \<^verbatim>\<open>model.generate_content([prompt], ..)\<close>, of which the module reads
    \<^verbatim>\<open>getattr(resp, "text", "")\<close>: \<^const>\<open>None\<close> stands for a response without a text;
  \<^item> \<^verbatim>\<open>col.aggregate(pipeline)\<close> on the stored documents.
  Each either returns or raises.
\<close>

record collaborators =
  embed_content :: "string \<Rightarrow> string \<Rightarrow> error + embedding"
  generate_content :: "string \<Rightarrow> string \<Rightarrow> error + string option"
  aggregate :: "chunk_doc list \<Rightarrow> vector_search_stage \<Rightarrow> error + hit list"

text \<open>
  The state the functions act on: the stored collection, and the requests issued to each
  collaborator so far, in order.
\<close>

record world =
  collection :: "chunk_doc list"
  bulk_writes :: "update_one list list"
  embed_requests :: "string list"
  search_requests :: "vector_search_stage list"
  generate_requests :: "string list"

subsection \<open>The store\<close>

text \<open>
  One upserting \<^verbatim>\<open>UpdateOne\<close>: the first stored document that matches the filter gets the
  fields set; when none matches, a document made of the filter and the fields is inserted.
\<close>

fun apply_update_one :: "update_one \<Rightarrow> chunk_doc list \<Rightarrow> chunk_doc list" where
  "apply_update_one u [] = [set_fields u]"
| "apply_update_one u (d # ds) =
     (if doc_id d = filt_doc_id u \<and> chunk_id d = filt_chunk_id u then set_fields u # ds
      else d # apply_update_one u ds)"

text \<open>
  \<^verbatim>\<open>col.bulk_write(ops, ordered=False)\<close>: the request is recorded and the operations are
  applied, here in the order of the list.
\<close>

definition bulk_write :: "update_one list \<Rightarrow> world \<Rightarrow> world" where
  "bulk_write ops w =
     w\<lparr>collection := foldl (\<lambda>ds u. apply_update_one u ds) (collection w) ops,
       bulk_writes := bulk_writes w @ [ops]\<rparr>"

subsection \<open>Configuration and embeddings\<close>

text \<open>
  \<^verbatim>\<open>
  def _ensure_gemini_configured():
      if not GEMINI_API_KEY:
          raise RuntimeError("GEMINI_API_KEY missing. Add it to your .env ...")
      genai.configure(api_key=GEMINI_API_KEY)
  \<close>
\<close>

definition ensure_gemini_configured :: "env \<Rightarrow> error + unit" where
  "ensure_gemini_configured ev =
     (if GEMINI_API_KEY ev = [] then
        Inl (RuntimeError
          ''GEMINI_API_KEY missing. Add it to your .env before running embeddings or generation.'')
      else Inr ())"


text \<open>
  \<^verbatim>\<open>
  def embed_texts(texts: List[str]) -> List[List[float]]:
      _ensure_gemini_configured()
      out = []
      for t in texts:
          r = genai.embed_content(model=EMBED_MODEL, content=t)
          out.append(r["embedding"])
      return out
  \<close>
  The loop is \<open>embed_loop\<close>, on the remaining texts and \<^verbatim>\<open>out\<close>.
\<close>

fun embed_loop ::
  "collaborators \<Rightarrow> env \<Rightarrow> string list \<Rightarrow> embedding list \<Rightarrow> world \<Rightarrow> (error + embedding list) \<times> world" where
  "embed_loop c ev [] out w = (Inr out, w)"
| "embed_loop c ev (t # ts) out w =
     (case embed_content c (EMBED_MODEL ev) t of
        Inl e \<Rightarrow> (Inl e, w\<lparr>embed_requests := embed_requests w @ [t]\<rparr>)
      | Inr v \<Rightarrow> embed_loop c ev ts (out @ [v]) (w\<lparr>embed_requests := embed_requests w @ [t]\<rparr>))"

definition embed_texts ::
  "collaborators \<Rightarrow> env \<Rightarrow> string list \<Rightarrow> world \<Rightarrow> (error + embedding list) \<times> world" where
  "embed_texts c ev texts w =
     (case ensure_gemini_configured ev of
        Inl e \<Rightarrow> (Inl e, w)
      | Inr _ \<Rightarrow> embed_loop c ev texts [] w)"

subsection \<open>Ingestion\<close>

text \<open>\<^verbatim>\<open>str(page)\<close> for an integer: decimal digits, with a minus sign when negative.\<close>

fun digits_of :: "nat \<Rightarrow> string" where
  "digits_of n =
     (if n < 10 then [char_of (48 + n)] else digits_of (n div 10) @ [char_of (48 + n mod 10)])"

definition str_of_int :: "int \<Rightarrow> string" where
  "str_of_int i = (if i < 0 then CHR ''-'' # digits_of (nat (- i)) else digits_of (nat i))"

text \<open>
  The body of the loop of \<^verbatim>\<open>upsert_chunks\<close>:
  \<^verbatim>\<open>
      chunk_id = deterministic_id(doc_id, str(page), text[:64])
      filt = {"doc_id": doc_id, "chunk_id": chunk_id}
      update = {"$set": {"doc_id": doc_id, "chunk_id": chunk_id, "text": text,
                         "embedding": emb, "metadata": {"doc_name": doc_name, "page": page}}}
      ops.append(UpdateOne(filt, update, upsert=True))
  \<close>
  \<^verbatim>\<open>text[:64]\<close> is the first 64 characters of the text.
\<close>

definition chunk_id_of :: "string \<Rightarrow> int \<Rightarrow> string \<Rightarrow> string" where
  "chunk_id_of did pg tx = deterministic_id [did, str_of_int pg, take 64 tx]"

definition make_op :: "string \<Rightarrow> string \<Rightarrow> (int \<times> string) \<times> embedding \<Rightarrow> update_one" where
  "make_op did dname ce =
     (case ce of ((pg, tx), emb) \<Rightarrow>
        \<lparr>filt_doc_id = did, filt_chunk_id = chunk_id_of did pg tx,
         set_fields = \<lparr>doc_id = did, chunk_id = chunk_id_of did pg tx, chunk_text_of = tx,
           chunk_embedding = emb,
           chunk_metadata = \<lparr>doc_name = Some dname, page = Some pg\<rparr>\<rparr>\<rparr>)"

text \<open>
  \<^verbatim>\<open>
  def upsert_chunks(doc_id, doc_name, chunks, col=None) -> int:
      col = col or get_collection()
      if not chunks:
          return 0
      texts = [c[1] for c in chunks]
      vecs  = embed_texts(texts)
      ops = []
      for (page, text), emb in zip(chunks, vecs):
          ...
      if ops:
          col.bulk_write(ops, ordered=False)
      return len(ops)
  \<close>
  No caller passes \<^verbatim>\<open>col\<close>; \<^verbatim>\<open>get_collection()\<close> hands out the handle of the one collection
  and writes nothing.
\<close>

definition upsert_chunks ::
  "collaborators \<Rightarrow> env \<Rightarrow> string \<Rightarrow> string \<Rightarrow> (int \<times> string) list \<Rightarrow> world \<Rightarrow> (error + nat) \<times> world" where
  "upsert_chunks c ev did dname chunks w =
     (if chunks = [] then (Inr 0, w)
      else
        (case embed_texts c ev (map snd chunks) w of
           (Inl e, w') \<Rightarrow> (Inl e, w')
         | (Inr vecs, w') \<Rightarrow>
             (let ops = map (make_op did dname) (zip chunks vecs)
              in (Inr (length ops), if ops \<noteq> [] then bulk_write ops w' else w'))))"

text \<open>
  \<^verbatim>\<open>
  def ingest_pdf(pdf_path, doc_id, doc_name, chunk_size=1200, overlap=200) -> int:
      pages = extract_pdf_text(pdf_path)
      all_chunks = []
      for p in pages:
          txt = p.get("text") or ""
          if not txt:
              continue
          for ch in chunk_text(txt, chunk_size=chunk_size, overlap=overlap):
              all_chunks.append((p["page"], ch))
      return upsert_chunks(doc_id, doc_name, all_chunks)
  \<close>
  The pages are what \<^verbatim>\<open>extract_pdf_text\<close> returned: pairs of a page number and a text.
  \<open>page_chunks\<close> is the loop over the pages; it has no value when \<^verbatim>\<open>chunk_text\<close> does
  not return on some page.
\<close>

fun page_chunks :: "int \<Rightarrow> int \<Rightarrow> (int \<times> string) list \<Rightarrow> (int \<times> string) list option" where
  "page_chunks chunk_size overlap [] = Some []"
| "page_chunks chunk_size overlap ((pg, tx) # ps) =
     (if tx = [] then page_chunks chunk_size overlap ps
      else
        (case chunk_text tx chunk_size overlap of
           None \<Rightarrow> None
         | Some chs \<Rightarrow>
             (case page_chunks chunk_size overlap ps of
                None \<Rightarrow> None
              | Some rest \<Rightarrow> Some (map (Pair pg) chs @ rest))))"

definition ingest_pages ::
  "collaborators \<Rightarrow> env \<Rightarrow> (int \<times> string) list \<Rightarrow> string \<Rightarrow> string \<Rightarrow> int \<Rightarrow> int \<Rightarrow> world
     \<Rightarrow> ((error + nat) \<times> world) option" where
  "ingest_pages c ev pages did dname chunk_size overlap w =
     (case page_chunks chunk_size overlap pages of
        None \<Rightarrow> None
      | Some all_chunks \<Rightarrow> Some (upsert_chunks c ev did dname all_chunks w))"

subsection \<open>Retrieval\<close>


text \<open>\<^verbatim>\<open>sep.join(parts)\<close>.\<close>

fun join :: "string \<Rightarrow> string list \<Rightarrow> string" where
  "join sep [] = []"
| "join sep [p] = p"
| "join sep (p # q # ps) = p @ sep @ join sep (q # ps)"

text \<open>
  \<^verbatim>\<open>
  def build_context(results: List[Dict]) -> str:
      ctx_parts = []
      for r in results:
          meta = r.get("metadata", {})
          name = meta.get("doc_name", "Doc")
          page = meta.get("page", "?")
          header = f"[Source: {name}, Page {page}]\n"
          ctx_parts.append(header + (r.get("text") or ""))
      return "\n\n".join(ctx_parts)
  \<close>
  \<open>context_part\<close> is the string appended for one hit.
\<close>

definition context_part :: "hit \<Rightarrow> string" where
  "context_part r =
     (let meta = (case hit_metadata r of None \<Rightarrow> \<lparr>doc_name = None, page = None\<rparr> | Some m \<Rightarrow> m);
          name = (case doc_name meta of None \<Rightarrow> ''Doc'' | Some n \<Rightarrow> n);
          pg = (case page meta of None \<Rightarrow> ''?'' | Some p \<Rightarrow> str_of_int p);
          header = ''[Source: '' @ name @ '', Page '' @ pg @ '']'' @ [CHR 0x0A]
      in header @ (case hit_text r of None \<Rightarrow> [] | Some t \<Rightarrow> t))"

definition build_context :: "hit list \<Rightarrow> string" where
  "build_context results = join [CHR 0x0A, CHR 0x0A] (map context_part results)"

subsection \<open>Synthesis\<close>








section \<open>Auxiliary notions used in the proofs\<close>

text \<open>
  A text is whitespace-normal when every whitespace character in it is a single blank
  that is not followed by another whitespace character.
\<close>

fun ws_normal :: "string \<Rightarrow> bool" where
  "ws_normal [] = True"
| "ws_normal (c # cs) =
     ((if is_space c then c = CHR '' '' \<and> (case cs of [] \<Rightarrow> True | d # _ \<Rightarrow> \<not> is_space d) else True)
      \<and> ws_normal cs)"

text \<open>
  De-overlapping a chunk sequence: the first chunk whole, every later chunk without its
  first \<open>ov\<close> characters, concatenated.
\<close>

definition deoverlap :: "nat \<Rightarrow> 'a list list \<Rightarrow> 'a list" where
  "deoverlap ov chunks = (case chunks of [] \<Rightarrow> [] | c # cs \<Rightarrow> c @ concat (map (drop ov) cs))"

text \<open>
  The windows of width \<open>cs\<close> taken every \<open>step\<close> characters from offset \<open>s\<close>, up to
  the first one that reaches the end of the text. The proofs relate the loop of
  \<^verbatim>\<open>chunk_text\<close> to this total function.
\<close>

function windows :: "'a list \<Rightarrow> nat \<Rightarrow> nat \<Rightarrow> nat \<Rightarrow> 'a list list" where
  "windows tx cs step s =
     (if step = 0 \<or> length tx \<le> s + cs then [take cs (drop s tx)]
      else take cs (drop s tx) # windows tx cs step (s + step))"
  by pat_completeness auto
termination
  by (relation "measure (\<lambda>(tx, cs, step, s). length tx - s)") auto


text \<open>
  Concrete settings, collaborators and an initial state, for the examples: an environment
  with and without an API key, collaborators that cannot be reached, and collaborators
  that answer with an empty embedding, no hits and a response without text.
\<close>

definition key_env :: env where
  "key_env = \<lparr>GEMINI_API_KEY = ''key'', EMBED_MODEL = ''text-embedding-004'',
              GEN_MODEL = ''gemini-2.5-flash''\<rparr>"

definition no_key_env :: env where
  "no_key_env = \<lparr>GEMINI_API_KEY = [], EMBED_MODEL = ''text-embedding-004'',
                 GEN_MODEL = ''gemini-2.5-flash''\<rparr>"

definition down_collaborators :: collaborators where
  "down_collaborators =
     \<lparr>embed_content = (\<lambda>m t. Inl (CollaboratorError ''unreachable'')),
      generate_content = (\<lambda>m p. Inl (CollaboratorError ''unreachable'')),
      aggregate = (\<lambda>ds st. Inl (CollaboratorError ''unreachable''))\<rparr>"


definition empty_world :: world where
  "empty_world = \<lparr>collection = [], bulk_writes = [], embed_requests = [],
                  search_requests = [], generate_requests = []\<rparr>"

definition hit_a1 :: hit where
  "hit_a1 = \<lparr>hit_text = Some ''T'',
             hit_metadata = Some \<lparr>doc_name = Some ''a'', page = Some 1\<rparr>,
             hit_score = Some 1\<rparr>"

definition hit_bare :: hit where
  "hit_bare = \<lparr>hit_text = None, hit_metadata = None, hit_score = None\<rparr>"

section \<open>Text normalizer\<close>

lemma is_space_blank: "is_space CHR '' ''"
  by (simp add: is_space_def)

lemma whitespace_sub_head:
  "\<not> is_space c \<Longrightarrow> whitespace_sub (c # cs) = c # whitespace_sub cs"
  by simp

lemma dropWhile_space_cases:
  "dropWhile is_space cs = [] \<or> (\<exists>d r. dropWhile is_space cs = d # r \<and> \<not> is_space d)"
proof (cases "dropWhile is_space cs")
  case Nil
  then show ?thesis by blast
next
  case (Cons d r)
  then have "dropWhile is_space cs \<noteq> []" by (simp del: dropWhile_eq_Nil_conv)
  then have "\<not> is_space (hd (dropWhile is_space cs))" by (rule hd_dropWhile)
  with Cons show ?thesis by (simp del: dropWhile_eq_Nil_conv)
qed

lemma ws_normal_whitespace_sub: "ws_normal (whitespace_sub x)"
proof (induction x rule: whitespace_sub.induct)
  case 1
  show ?case by simp
next
  case (2 c cs)
  show ?case
  proof (cases "is_space c")
    case True
    from dropWhile_space_cases[of cs] show ?thesis
    proof
      assume e: "dropWhile is_space cs = []"
      have "whitespace_sub (c # cs) = [CHR '' '']"
        using True by (simp del: dropWhile_eq_Nil_conv add: e)
      then show ?thesis by (simp add: is_space_blank)
    next
      assume "\<exists>d r. dropWhile is_space cs = d # r \<and> \<not> is_space d"
      then obtain d r where dr: "dropWhile is_space cs = d # r" "\<not> is_space d" by blast
      from 2(1)[OF True] dr have "ws_normal (d # whitespace_sub r)" by simp
      moreover have "whitespace_sub (c # cs) = CHR '' '' # d # whitespace_sub r"
        using True dr by simp
      ultimately show ?thesis using dr(2) by (simp add: is_space_blank)
    qed
  next
    case False
    with 2(2) show ?thesis by simp
  qed
qed

lemma whitespace_sub_normal: "ws_normal z \<Longrightarrow> whitespace_sub z = z"
proof (induction z)
  case Nil
  show ?case by simp
next
  case (Cons c cs)
  then show ?case by (cases cs) (auto split: if_splits)
qed

lemma ws_normal_append_left: "ws_normal (a @ b) \<Longrightarrow> ws_normal a"
proof (induction a)
  case Nil
  show ?case by simp
next
  case (Cons c a)
  then show ?case by (cases a) (auto split: if_splits)
qed

lemma ws_normal_append_right: "ws_normal (a @ b) \<Longrightarrow> ws_normal b"
  by (induction a) (auto split: if_splits)

lemma strip_decomp:
  "z = takeWhile is_space z @ strip z @ rev (takeWhile is_space (rev (dropWhile is_space z)))"
proof -
  have "dropWhile is_space z =
        rev (dropWhile is_space (rev (dropWhile is_space z))) @
        rev (takeWhile is_space (rev (dropWhile is_space z)))"
    by (metis rev_append rev_rev_ident takeWhile_dropWhile_id)
  then show ?thesis
    by (metis strip_def takeWhile_dropWhile_id)
qed

lemma ws_normal_strip: "ws_normal z \<Longrightarrow> ws_normal (strip z)"
  by (metis strip_decomp ws_normal_append_left ws_normal_append_right)

lemma strip_no_leading: "dropWhile is_space (strip z) = strip z"
proof (cases "strip z")
  case Nil
  then show ?thesis by simp
next
  case (Cons c r)
  let ?d = "dropWhile is_space z"
  have pre: "?d = strip z @ rev (takeWhile is_space (rev ?d))"
    unfolding strip_def by (metis rev_append rev_rev_ident takeWhile_dropWhile_id)
  from pre Cons have dc: "?d = c # (r @ rev (takeWhile is_space (rev ?d)))"
    by (metis append_Cons)
  then have "?d \<noteq> []" by (metis list.distinct(1))
  then have "\<not> is_space (hd ?d)" by (rule hd_dropWhile)
  moreover from dc have "hd ?d = c" by (metis list.sel(1))
  ultimately show ?thesis using Cons by simp
qed

lemma strip_idem: "strip (strip z) = strip z"
proof -
  have "strip (strip z) = rev (dropWhile is_space (rev (strip z)))"
    by (simp add: strip_def[of "strip z"] strip_no_leading)
  also have "\<dots> = rev (dropWhile is_space (dropWhile is_space (rev (dropWhile is_space z))))"
    by (simp add: strip_def)
  also have "\<dots> = strip z"
    by (simp add: strip_def dropWhile_idem)
  finally show ?thesis .
qed

text \<open>
  Claim C9 (normalization idempotence): for every string \<open>x\<close>, normalizing the
  normalized text changes nothing, \<open>clean_text (clean_text x) = clean_text x\<close>.
\<close>

theorem clean_text_idempotent: "clean_text (clean_text x) = clean_text x"
proof -
  have "whitespace_sub (clean_text x) = clean_text x"
    unfolding clean_text_def
    by (intro whitespace_sub_normal ws_normal_strip ws_normal_whitespace_sub)
  then show ?thesis
    by (simp add: clean_text_def[of "clean_text x"]) (simp add: clean_text_def strip_idem)
qed

section \<open>Chunker\<close>

declare windows.simps [simp del]

lemma py_slice_nonneg:
  "py_slice xs (int a) (int b) = take (min (length xs) b - min (length xs) a) (drop (min (length xs) a) xs)"
  by (simp add: py_slice_def slice_index_def Let_def)

lemma chunk_loop_windows:
  assumes "0 \<le> ov" "ov < cs"
  shows "s < length tx \<Longrightarrow>
         chunk_loop tx cs ov (int s) acc = Some (acc @ windows tx (nat cs) (nat (cs - ov)) s)"
proof (induction tx "nat cs" "nat (cs - ov)" s arbitrary: acc rule: windows.induct)
  case (1 tx s)
  let ?n = "length tx"
  have cs: "cs = int (nat cs)" using assms by simp
  show ?case
  proof (cases "?n \<le> s + nat cs")
    case True
    then have m: "min (int s + cs) (int ?n) = int ?n" using assms by linarith
    have sl: "py_slice tx (int s) (int ?n) = take (nat cs) (drop s tx)"
      using 1(2) True by (simp add: py_slice_nonneg)
    show ?thesis
      by (subst chunk_loop.simps, subst windows.simps) (use 1(2) True m sl in simp)
  next
    case False
    then have m: "min (int s + cs) (int ?n) = int (s + nat cs)" using assms by linarith
    have ne: "int (s + nat cs) \<noteq> int ?n" using False by linarith
    have st: "max 0 (int (s + nat cs) - ov) = int (s + nat (cs - ov))" using assms by linarith
    have sl: "py_slice tx (int s) (int (s + nat cs)) = take (nat cs) (drop s tx)"
      unfolding py_slice_nonneg using 1(2) False by (simp add: min_def)
    have step: "nat (cs - ov) \<noteq> 0" using assms by simp
    have lt: "s + nat (cs - ov) < ?n" using False assms by linarith
    have ih: "chunk_loop tx cs ov (int (s + nat (cs - ov))) (acc @ [take (nat cs) (drop s tx)])
              = Some ((acc @ [take (nat cs) (drop s tx)]) @ windows tx (nat cs) (nat (cs - ov)) (s + nat (cs - ov)))"
      using 1(1) step False lt by simp
    show ?thesis
      apply (subst chunk_loop.simps)
      apply (subst windows.simps)
      using 1(2) False step ne ih
      apply (simp only: m st sl)
      apply simp
      done
  qed
qed

lemma windows_length: "c \<in> set (windows tx cs step s) \<Longrightarrow> length c \<le> cs"
  by (induction tx cs step s rule: windows.induct)
     (subst (asm) windows.simps, auto split: if_splits)

lemma windows_nth:
  "i < length (windows tx cs step s) \<Longrightarrow>
   windows tx cs step s ! i = take cs (drop (s + i * step) tx)"
proof (induction tx cs step s arbitrary: i rule: windows.induct)
  case (1 tx cs step s)
  show ?case
  proof (cases "step = 0 \<or> length tx \<le> s + cs")
    case True
    then have "windows tx cs step s = [take cs (drop s tx)]" by (subst windows.simps) simp
    with 1(2) show ?thesis by simp
  next
    case False
    then have w: "windows tx cs step s = take cs (drop s tx) # windows tx cs step (s + step)"
      by (subst windows.simps) simp
    show ?thesis
    proof (cases i)
      case 0
      with w show ?thesis by simp
    next
      case (Suc j)
      with 1(2) w have "j < length (windows tx cs step (s + step))" by simp
      from 1(1)[OF False this] Suc w show ?thesis by (simp add: add.assoc add.commute)
    qed
  qed
qed

lemma windows_last_end:
  "0 < step \<Longrightarrow>
   length tx \<le> s + (length (windows tx cs step s) - 1) * step + cs"
proof (induction tx cs step s rule: windows.induct)
  case (1 tx cs step s)
  show ?case
  proof (cases "step = 0 \<or> length tx \<le> s + cs")
    case True
    then have "windows tx cs step s = [take cs (drop s tx)]" by (subst windows.simps) simp
    with True 1(2) show ?thesis by simp
  next
    case False
    then have w: "windows tx cs step s = take cs (drop s tx) # windows tx cs step (s + step)"
      by (subst windows.simps) simp
    have ne: "windows tx cs step (s + step) \<noteq> []" by (subst windows.simps) simp
    then obtain k where k: "length (windows tx cs step (s + step)) = Suc k"
      by (cases "windows tx cs step (s + step)") auto
    from 1(1)[OF False 1(2)] k w show ?thesis by (simp add: algebra_simps)
  qed
qed

lemma windows_deoverlap:
  "ov < cs \<Longrightarrow> s < length tx \<Longrightarrow>
   deoverlap ov (windows tx cs (cs - ov) s) = drop s tx"
proof (induction tx cs "cs - ov" s rule: windows.induct)
  case (1 tx cs s)
  show ?case
  proof (cases "length tx \<le> s + cs")
    case True
    then have "windows tx cs (cs - ov) s = [take cs (drop s tx)]" by (subst windows.simps) simp
    with True show ?thesis by (simp add: deoverlap_def)
  next
    case False
    with 1(2) have c: "\<not> (cs - ov = 0 \<or> length tx \<le> s + cs)" by simp
    then have w: "windows tx cs (cs - ov) s =
                  take cs (drop s tx) # windows tx cs (cs - ov) (s + (cs - ov))"
      by (subst windows.simps) simp
    have lt: "s + (cs - ov) < length tx" using False by simp
    from 1(1)[OF c 1(2) lt]
    have ih: "deoverlap ov (windows tx cs (cs - ov) (s + (cs - ov))) = drop (s + (cs - ov)) tx" .
    have "windows tx cs (cs - ov) (s + (cs - ov)) \<noteq> []"
      by (subst windows.simps) simp
    then obtain h r where hr: "windows tx cs (cs - ov) (s + (cs - ov)) = h # r"
      by (auto simp: neq_Nil_conv)
    have h: "h = take cs (drop (s + (cs - ov)) tx)"
      using hr windows_nth[of 0 tx cs "cs - ov" "s + (cs - ov)"] by simp
    have lh: "ov \<le> length h" using h False 1(2) by simp
    from ih hr have "h @ concat (map (drop ov) r) = drop (s + (cs - ov)) tx"
      by (simp add: deoverlap_def)
    then have "drop ov (h @ concat (map (drop ov) r)) = drop ov (drop (s + (cs - ov)) tx)" by simp
    with lh 1(2) have "drop ov h @ concat (map (drop ov) r) = drop (s + cs) tx"
      by (simp add: add.commute)
    with w hr show ?thesis
      by (simp add: deoverlap_def) (metis add.commute append_take_drop_id drop_drop)
  qed
qed

lemma chunk_loop_stuck:
  assumes run: "chunk_loop tx cs ov st acc = Some y"
  shows "\<not> (0 < cs \<and> cs \<le> ov \<and> cs < int (length tx) \<and> st = 0)"
proof (rule chunk_loop.raw_induct
    [where P = "\<lambda>tx cs ov st acc y. \<not> (0 < cs \<and> cs \<le> ov \<and> cs < int (length tx) \<and> st = 0)",
     OF _ run])
  fix f :: "string \<Rightarrow> int \<Rightarrow> int \<Rightarrow> int \<Rightarrow> string list \<Rightarrow> string list option"
  fix tx cs ov st acc y
  assume ih: "\<And>tx cs ov st acc y. f tx cs ov st acc = Some y \<Longrightarrow>
                \<not> (0 < cs \<and> cs \<le> ov \<and> cs < int (length tx) \<and> st = 0)"
  assume body: "(if st < int (length tx) then
        (if min (st + cs) (int (length tx)) = int (length tx)
         then Some (acc @ [py_slice tx st (min (st + cs) (int (length tx)))])
         else f tx cs ov (max 0 (min (st + cs) (int (length tx)) - ov))
                (acc @ [py_slice tx st (min (st + cs) (int (length tx)))]))
      else Some acc) = Some y"
  show "\<not> (0 < cs \<and> cs \<le> ov \<and> cs < int (length tx) \<and> st = 0)"
  proof
    assume a: "0 < cs \<and> cs \<le> ov \<and> cs < int (length tx) \<and> st = 0"
    then have m: "min (st + cs) (int (length tx)) = cs" "max 0 (cs - ov) = 0"
      and c: "st < int (length tx)" "cs \<noteq> int (length tx)" by auto
    from body have "f tx cs ov 0 (acc @ [py_slice tx st cs]) = Some y"
      unfolding m if_P[OF c(1)] if_not_P[OF c(2)] m .
    from ih[OF this] a show False by simp
  qed
qed

lemma chunk_loop_diverges:
  "0 < cs \<Longrightarrow> cs \<le> ov \<Longrightarrow> cs < int (length tx) \<Longrightarrow> chunk_loop tx cs ov 0 acc = None"
  using chunk_loop_stuck[of tx cs ov 0 acc] by (cases "chunk_loop tx cs ov 0 acc") auto

lemma strip_abc: "strip ''abcdefghij'' = ''abcdefghij''"
  by (simp add: strip_def is_space_def)

text \<open>
  Claim C2 (a call with \<open>overlap \<ge> chunk_size\<close> is handled explicitly, and
  \<^verbatim>\<open>chunk_text\<close> returns for every text and every \<open>chunk_size > 0\<close>, \<open>overlap \<ge> 0\<close>):
  the source neither rejects nor clamps such a call. On the ten-character text of
  Scenario A with \<open>chunk_size = 4\<close> and \<open>overlap = 4\<close> the first window ends at 4, the
  next start is \<open>max 0 (4 - 4) = 0\<close> again, and the loop appends the same chunk forever:
  the call never returns.
\<close>

theorem chunk_text_overlap_ge_size_diverges: "chunk_text ''abcdefghij'' 4 4 = None"
  by (simp add: chunk_text_def strip_abc chunk_loop_diverges)

text \<open>Scenario A of the specification.\<close>

lemma chunk_text_scenario_A: "chunk_text ''abcdefghij'' 4 1 = Some [''abcd'', ''defg'', ''ghij'']"
  by (simp add: chunk_text_def strip_abc chunk_loop.simps py_slice_def slice_index_def)

text \<open>
  Claim C1 (chunk coverage), as the code has it: \<^verbatim>\<open>chunk_text\<close> first strips the text,
  so the chunks cover the stripped text. For every text and \<open>0 \<le> overlap < chunk_size\<close>
  the call returns a chunk list such that
  \<^item> dropping the first \<open>overlap\<close> characters of every chunk but the first and
    concatenating gives the stripped text;
  \<^item> no chunk is longer than \<open>chunk_size\<close>;
  \<^item> chunk \<open>i\<close> is the slice of the stripped text from \<open>i * (chunk_size - overlap)\<close> to
    that offset plus \<open>chunk_size\<close>, clamped to the length \<open>L\<close> of the stripped text;
  \<^item> the last chunk ends exactly at \<open>L\<close>.
\<close>

theorem chunk_text_coverage:
  assumes "0 \<le> overlap" "overlap < chunk_size"
  shows "\<exists>chunks. chunk_text tx chunk_size overlap = Some chunks
      \<and> deoverlap (nat overlap) chunks = strip tx
      \<and> (\<forall>c \<in> set chunks. int (length c) \<le> chunk_size)
      \<and> (\<forall>i < length chunks. chunks ! i =
            py_slice (strip tx) (int i * (chunk_size - overlap))
              (min (int i * (chunk_size - overlap) + chunk_size) (int (length (strip tx)))))
      \<and> (chunks \<noteq> [] \<longrightarrow>
            min (int (length chunks - 1) * (chunk_size - overlap) + chunk_size)
                (int (length (strip tx))) = int (length (strip tx)))"
proof (cases "strip tx = []")
  case True
  then show ?thesis by (simp add: chunk_text_def deoverlap_def)
next
  case False
  let ?t = "strip tx"
  let ?cs = "nat chunk_size"
  let ?st = "nat (chunk_size - overlap)"
  let ?W = "windows ?t ?cs ?st 0"
  from False have pos: "0 < length ?t" by simp
  have run: "chunk_text tx chunk_size overlap = Some ?W"
    using False chunk_loop_windows[OF assms pos, of "[]"] by (simp add: chunk_text_def)
  have st: "?st = ?cs - nat overlap" using assms by simp
  have cover: "deoverlap (nat overlap) ?W = ?t"
    using windows_deoverlap[of "nat overlap" ?cs 0 ?t] assms pos by (simp add: st)
  have len: "\<forall>c \<in> set ?W. int (length c) \<le> chunk_size"
  proof
    fix c assume "c \<in> set ?W"
    then have "length c \<le> ?cs" by (rule windows_length)
    with assms show "int (length c) \<le> chunk_size" by simp
  qed
  have nth: "\<forall>i < length ?W. ?W ! i =
       py_slice ?t (int i * (chunk_size - overlap))
         (min (int i * (chunk_size - overlap) + chunk_size) (int (length ?t)))"
  proof (intro allI impI)
    fix i assume i: "i < length ?W"
    have a: "int i * (chunk_size - overlap) = int (i * ?st)" using assms by simp
    have b: "min (int (i * ?st) + chunk_size) (int (length ?t)) = int (min (i * ?st + ?cs) (length ?t))"
      using assms by (auto simp add: min_def simp del: of_nat_mult)
    have "py_slice ?t (int (i * ?st)) (int (min (i * ?st + ?cs) (length ?t)))
          = take ?cs (drop (i * ?st) ?t)"
      unfolding py_slice_nonneg by (cases "i * ?st \<le> length ?t") (auto simp: min_def)
    with windows_nth[OF i] show "?W ! i = py_slice ?t (int i * (chunk_size - overlap))
         (min (int i * (chunk_size - overlap) + chunk_size) (int (length ?t)))"
      by (simp only: a b) simp
  qed
  have ends: "min (int (length ?W - 1) * (chunk_size - overlap) + chunk_size) (int (length ?t))
              = int (length ?t)"
  proof -
    have "0 < ?st" using assms by simp
    from windows_last_end[OF this, of ?t 0 ?cs]
    have "length ?t \<le> (length ?W - 1) * ?st + ?cs" by simp
    then have "int (length ?t) \<le> int ((length ?W - 1) * ?st + ?cs)" by (simp only: of_nat_le_iff)
    also have "\<dots> = int (length ?W - 1) * (chunk_size - overlap) + chunk_size"
      using assms by simp
    finally show ?thesis by simp
  qed
  from run cover len nth ends show ?thesis by blast
qed

text \<open>The hypotheses hold, and the theorem applies, on Scenario A.\<close>

theorem chunk_text_coverage_witness:
  "(0::int) \<le> 1 \<and> (1::int) < 4
   \<and> chunk_text ''abcdefghij'' 4 1 = Some [''abcd'', ''defg'', ''ghij'']
   \<and> deoverlap (nat 1) [''abcd'', ''defg'', ''ghij''] = strip ''abcdefghij''
   \<and> list_all (\<lambda>c. int (length c) \<le> 4) [''abcd'', ''defg'', ''ghij'']
   \<and> min (int (length [''abcd'', ''defg'', ''ghij''] - 1) * (4 - 1) + 4)
          (int (length (strip ''abcdefghij''))) = int (length (strip ''abcdefghij''))"
proof -
  have h1: "(0::int) \<le> 1" and h2: "(1::int) < 4" by simp_all
  note run = chunk_text_scenario_A
  from chunk_text_coverage[OF h1 h2, of "''abcdefghij''"] run h1 h2
  show ?thesis by (simp del: One_nat_def)
qed

text \<open>
  Claim C1 as stated speaks of the original text. A text with a leading blank is not
  reconstructed: the blank is stripped before chunking.
\<close>

theorem chunk_text_original_counterexample:
  "chunk_text '' a'' 1200 200 = Some [''a''] \<and> deoverlap 200 [''a''] \<noteq> '' a''"
  by (simp add: chunk_text_def strip_def is_space_def chunk_loop.simps py_slice_def
      slice_index_def deoverlap_def)

section \<open>Identity\<close>

lemma utf8_encode_append: "utf8_encode (a @ b) = utf8_encode a @ utf8_encode b"
  by (simp add: utf8_encode_def)

lemma fold_update_concat:
  "foldl (\<lambda>m p. sha256_update m (utf8_encode p)) m0 parts = m0 @ utf8_encode (concat parts)"
  by (induction parts arbitrary: m0) (simp_all add: sha256_update_def utf8_encode_append utf8_encode_def)

lemma deterministic_id_concat_eq:
  "deterministic_id parts = take 16 (hexdigest (utf8_encode (concat parts)))"
  by (simp add: deterministic_id_def fold_update_concat sha256_new_def)

text \<open>
  Claim C10 (part boundaries do not influence ids): the parts are fed to the hash object
  one after the other with nothing between them, so two part lists with the same
  concatenation get the same id.
\<close>

theorem deterministic_id_part_boundaries:
  "concat ps = concat qs \<Longrightarrow> deterministic_id ps = deterministic_id qs"
  by (simp add: deterministic_id_concat_eq)

text \<open>The three ways of splitting \<open>abc\<close> named in the claim.\<close>

theorem deterministic_id_part_boundaries_witness:
  "concat [''ab'', ''c''] = concat [''a'', ''bc'']
   \<and> deterministic_id [''ab'', ''c''] = deterministic_id [''a'', ''bc'']
   \<and> concat [''a'', ''bc''] = concat [''abc'']
   \<and> deterministic_id [''a'', ''bc''] = deterministic_id [''abc'']"
proof -
  have h1: "concat [''ab'', ''c''] = concat [''a'', ''bc'']" by simp
  have h2: "concat [''a'', ''bc''] = concat [''abc'']" by simp
  from deterministic_id_part_boundaries[OF h1] deterministic_id_part_boundaries[OF h2] h1 h2
  show ?thesis by blast
qed

lemma length_round256: "length (round256 s kw) = length s"
  by (induction s kw rule: round256.induct) (simp_all add: Let_def)

lemma length_foldl_round256: "length (foldl round256 s kws) = length s"
  by (induction kws arbitrary: s) (simp_all add: length_round256)

lemma length_compress: "length (compress hs blk) = length hs"
  by (simp add: compress_def length_foldl_round256)

lemma length_foldl_compress: "length (foldl compress hs blks) = length hs"
  by (induction blks arbitrary: hs) (simp_all add: length_compress)

lemma length_be_bytes: "length (be_bytes k v) = k"
  by (simp add: be_bytes_def)

lemma length_concat_const: "(\<And>x. x \<in> set xs \<Longrightarrow> length x = k) \<Longrightarrow> length (concat xs) = k * length xs"
  by (induction xs) simp_all

lemma length_sha256: "length (sha256 m) = 32"
proof -
  have "length (sha256 m) = 4 * length (foldl compress H256 (chunks16 (words_of (pad m))))"
    unfolding sha256_def by (subst length_concat_const[where k = 4]) (auto simp: length_be_bytes)
  then show ?thesis by (simp add: length_foldl_compress H256_def)
qed

lemma be_bytes_range: "b \<in> set (be_bytes k v) \<Longrightarrow> 0 \<le> b \<and> b < 256"
  by (auto simp: be_bytes_def)

lemma sha256_bytes: "b \<in> set (sha256 m) \<Longrightarrow> 0 \<le> b \<and> b < 256"
  by (auto simp: sha256_def dest: be_bytes_range)

lemma hex_digit_range: "0 \<le> d \<Longrightarrow> d < 16 \<Longrightarrow> hex_digit d \<in> set ''0123456789abcdef''"
proof -
  assume "0 \<le> d" "d < 16"
  then have "nat d < length ''0123456789abcdef''" by simp
  then show ?thesis unfolding hex_digit_def by (rule nth_mem)
qed

lemma length_hexdigest: "length (hexdigest m) = 64"
proof -
  have "length (hexdigest m) = 2 * length (sha256 m)"
    unfolding hexdigest_def by (subst length_concat_const[where k = 2]) auto
  then show ?thesis by (simp add: length_sha256)
qed

lemma hexdigest_chars: "set (hexdigest m) \<subseteq> set ''0123456789abcdef''"
proof
  fix x assume "x \<in> set (hexdigest m)"
  then obtain b where b: "b \<in> set (sha256 m)" and x: "x = hex_digit (b div 16) \<or> x = hex_digit (b mod 16)"
    by (auto simp: hexdigest_def)
  from sha256_bytes[OF b] have "0 \<le> b div 16" "b div 16 < 16" "0 \<le> b mod 16" "b mod 16 < 16"
    by auto
  with x show "x \<in> set ''0123456789abcdef''" using hex_digit_range by blast
qed

lemma deterministic_id_shape:
  "length (deterministic_id parts) = 16 \<and> set (deterministic_id parts) \<subseteq> set ''0123456789abcdef''"
proof
  show "length (deterministic_id parts) = 16"
    by (simp add: deterministic_id_def length_hexdigest)
  have "set (deterministic_id parts) \<subseteq> set (hexdigest (utf8_encode (concat parts)))"
    unfolding deterministic_id_concat_eq by (rule set_take_subset)
  with hexdigest_chars show "set (deterministic_id parts) \<subseteq> set ''0123456789abcdef''" by blast
qed

text \<open>The ids of the part lists \<open>a, b\<close> and \<open>b, a\<close>, computed.\<close>

lemma deterministic_id_a_b: "deterministic_id [''a'', ''b''] = ''fb8e20fc2e4c3f24''"
  by code_simp

lemma deterministic_id_b_a: "deterministic_id [''b'', ''a''] = ''970f519c2cadbcef''"
  by code_simp

text \<open>
  Claim C8 (identity determinism and order sensitivity): \<open>deterministic_id\<close> is a function
  of the part list alone (the source reads no clock, random source or other state), so
  two applications to the same part list give the same value; that value has 16
  characters, all of them lower-case hexadecimal digits; and the id is order-sensitive:
  the parts \<open>a, b\<close> and \<open>b, a\<close> get different ids.
\<close>

theorem deterministic_id_deterministic_and_order_sensitive:
  "deterministic_id parts = deterministic_id parts
   \<and> length (deterministic_id parts) = 16
   \<and> set (deterministic_id parts) \<subseteq> set ''0123456789abcdef''
   \<and> deterministic_id [''a'', ''b''] \<noteq> deterministic_id [''b'', ''a'']"
proof -
  have "deterministic_id [''a'', ''b''] \<noteq> deterministic_id [''b'', ''a'']"
    unfolding deterministic_id_a_b deterministic_id_b_a by simp
  with deterministic_id_shape[of parts] show ?thesis by simp
qed

section \<open>Chunk ids\<close>






section \<open>Ingestion\<close>

lemma embed_loop_store:
  "embed_loop c ev ts out w = (r, w') \<Longrightarrow>
   collection w' = collection w \<and> bulk_writes w' = bulk_writes w
   \<and> search_requests w' = search_requests w \<and> generate_requests w' = generate_requests w"
proof (induction ts arbitrary: out w)
  case Nil
  then show ?case by simp
next
  case (Cons t ts)
  show ?case
  proof (cases "embed_content c (EMBED_MODEL ev) t")
    case (Inl e)
    with Cons.prems show ?thesis by auto
  next
    case (Inr v)
    with Cons.prems have "embed_loop c ev ts (out @ [v]) (w\<lparr>embed_requests := embed_requests w @ [t]\<rparr>) = (r, w')"
      by simp
    from Cons.IH[OF this] show ?thesis by simp
  qed
qed

lemma embed_texts_store:
  "embed_texts c ev ts w = (r, w') \<Longrightarrow>
   collection w' = collection w \<and> bulk_writes w' = bulk_writes w
   \<and> search_requests w' = search_requests w \<and> generate_requests w' = generate_requests w"
  by (auto simp: embed_texts_def split: sum.splits dest: embed_loop_store)

lemma embed_texts_no_key:
  "GEMINI_API_KEY ev = [] \<Longrightarrow>
   embed_texts c ev ts w =
     (Inl (RuntimeError
        ''GEMINI_API_KEY missing. Add it to your .env before running embeddings or generation.''), w)"
  by (simp add: embed_texts_def ensure_gemini_configured_def)

lemma upsert_chunks_failure:
  assumes "chunks \<noteq> []" and "fst (embed_texts c ev (map snd chunks) w) = Inl e"
  shows "fst (upsert_chunks c ev did dname chunks w) = Inl e
       \<and> collection (snd (upsert_chunks c ev did dname chunks w)) = collection w
       \<and> bulk_writes (snd (upsert_chunks c ev did dname chunks w)) = bulk_writes w"
proof -
  obtain r w' where rw: "embed_texts c ev (map snd chunks) w = (r, w')" by (cases "embed_texts c ev (map snd chunks) w")
  with assms(2) have r: "r = Inl e" by simp
  from embed_texts_store[OF rw] have "collection w' = collection w" "bulk_writes w' = bulk_writes w" by simp_all
  moreover have "upsert_chunks c ev did dname chunks w = (Inl e, w')"
    using assms(1) rw r by (simp add: upsert_chunks_def)
  ultimately show ?thesis by simp
qed

lemma upsert_chunks_raises_unchanged:
  assumes "fst (upsert_chunks c ev did dname chunks w) = Inl e"
  shows "collection (snd (upsert_chunks c ev did dname chunks w)) = collection w
       \<and> bulk_writes (snd (upsert_chunks c ev did dname chunks w)) = bulk_writes w"
proof (cases "chunks = []")
  case True
  with assms show ?thesis by (simp add: upsert_chunks_def)
next
  case False
  obtain r w' where rw: "embed_texts c ev (map snd chunks) w = (r, w')" by (cases "embed_texts c ev (map snd chunks) w")
  show ?thesis
  proof (cases r)
    case (Inl e')
    with rw have "fst (embed_texts c ev (map snd chunks) w) = Inl e'" by simp
    from upsert_chunks_failure[OF False this] show ?thesis by simp
  next
    case (Inr vecs)
    with assms False rw show ?thesis by (simp add: upsert_chunks_def Let_def)
  qed
qed

text \<open>
  Claim C3 (embedding-failure atomicity of ingestion), as the code has it. For a chunk list
  that is not empty: when the embedding step fails, whatever the failure,
  \<^verbatim>\<open>upsert_chunks\<close> raises that failure, no \<^verbatim>\<open>bulk_write\<close> is issued and the stored
  collection is unchanged; when the API key is absent it raises the \<^verbatim>\<open>RuntimeError\<close> of
  \<^verbatim>\<open>_ensure_gemini_configured\<close> before any request at all. For an empty chunk list it
  returns 0 without touching the embedding collaborator or the store, so it does not
  raise, configured or not. An ingestion that raises leaves the store unchanged.
\<close>

theorem upsert_chunks_embedding_failure_atomic:
  "(chunks \<noteq> [] \<and> fst (embed_texts c ev (map snd chunks) w) = Inl e \<longrightarrow>
      fst (upsert_chunks c ev did dname chunks w) = Inl e
      \<and> collection (snd (upsert_chunks c ev did dname chunks w)) = collection w
      \<and> bulk_writes (snd (upsert_chunks c ev did dname chunks w)) = bulk_writes w)
   \<and> (chunks \<noteq> [] \<and> GEMINI_API_KEY ev = [] \<longrightarrow>
      upsert_chunks c ev did dname chunks w =
        (Inl (RuntimeError
           ''GEMINI_API_KEY missing. Add it to your .env before running embeddings or generation.''), w))
   \<and> (chunks = [] \<longrightarrow> upsert_chunks c ev did dname chunks w = (Inr 0, w))
   \<and> (ingest_pages c ev pages did dname chunk_size overlap w = Some (Inl e, w') \<longrightarrow>
      collection w' = collection w \<and> bulk_writes w' = bulk_writes w)"
proof (intro conjI impI)
  assume a: "chunks \<noteq> [] \<and> fst (embed_texts c ev (map snd chunks) w) = Inl e"
  then have a1: "chunks \<noteq> []" and a2: "fst (embed_texts c ev (map snd chunks) w) = Inl e" by simp_all
  from upsert_chunks_failure[OF a1 a2]
  show "fst (upsert_chunks c ev did dname chunks w) = Inl e"
    and "collection (snd (upsert_chunks c ev did dname chunks w)) = collection w"
    and "bulk_writes (snd (upsert_chunks c ev did dname chunks w)) = bulk_writes w" by simp_all
next
  assume "chunks \<noteq> [] \<and> GEMINI_API_KEY ev = []"
  then show "upsert_chunks c ev did dname chunks w =
        (Inl (RuntimeError
           ''GEMINI_API_KEY missing. Add it to your .env before running embeddings or generation.''), w)"
    by (simp add: upsert_chunks_def embed_texts_no_key)
next
  assume "chunks = []"
  then show "upsert_chunks c ev did dname chunks w = (Inr 0, w)" by (simp add: upsert_chunks_def)
next
  assume i: "ingest_pages c ev pages did dname chunk_size overlap w = Some (Inl e, w')"
  then obtain all_chunks where u: "upsert_chunks c ev did dname all_chunks w = (Inl e, w')"
    by (auto simp: ingest_pages_def split: option.splits)
  then have "fst (upsert_chunks c ev did dname all_chunks w) = Inl e" by simp
  from upsert_chunks_raises_unchanged[OF this] u
  show "collection w' = collection w" and "bulk_writes w' = bulk_writes w" by simp_all
qed

text \<open>
  A one-page document against collaborators that cannot be reached, with and without an
  API key.
\<close>

lemma strip_t: "strip ''t'' = ''t''"
  by (simp add: strip_def is_space_def)

lemma ingest_one_page_down:
  "ingest_pages down_collaborators key_env [(1, ''t'')] ''d'' ''n'' 1200 200 empty_world
   = Some (Inl (CollaboratorError ''unreachable''), empty_world\<lparr>embed_requests := [''t'']\<rparr>)"
  by (simp add: ingest_pages_def chunk_text_def strip_t chunk_loop.simps py_slice_def slice_index_def
      upsert_chunks_def embed_texts_def ensure_gemini_configured_def key_env_def
      down_collaborators_def empty_world_def)

theorem upsert_chunks_embedding_failure_atomic_witness:
  "[(1, ''t'')] \<noteq> []
   \<and> fst (embed_texts down_collaborators key_env (map snd [(1, ''t'')]) empty_world)
       = Inl (CollaboratorError ''unreachable'')
   \<and> fst (upsert_chunks down_collaborators key_env ''d'' ''n'' [(1, ''t'')] empty_world)
       = Inl (CollaboratorError ''unreachable'')
   \<and> collection (snd (upsert_chunks down_collaborators key_env ''d'' ''n'' [(1, ''t'')] empty_world)) = []
   \<and> bulk_writes (snd (upsert_chunks down_collaborators key_env ''d'' ''n'' [(1, ''t'')] empty_world)) = []
   \<and> GEMINI_API_KEY no_key_env = []
   \<and> fst (upsert_chunks down_collaborators no_key_env ''d'' ''n'' [(1, ''t'')] empty_world)
       = Inl (RuntimeError
           ''GEMINI_API_KEY missing. Add it to your .env before running embeddings or generation.'')
   \<and> upsert_chunks down_collaborators no_key_env ''d'' ''n'' [] empty_world = (Inr 0, empty_world)
   \<and> ingest_pages down_collaborators key_env [(1, ''t'')] ''d'' ''n'' 1200 200 empty_world
       = Some (Inl (CollaboratorError ''unreachable''), empty_world\<lparr>embed_requests := [''t'']\<rparr>)
   \<and> collection (empty_world\<lparr>embed_requests := [''t'']\<rparr>) = []"
proof -
  have h1: "fst (embed_texts down_collaborators key_env (map snd [(1, ''t'')]) empty_world)
       = Inl (CollaboratorError ''unreachable'')"
    by (simp add: embed_texts_def ensure_gemini_configured_def key_env_def down_collaborators_def)
  have h2: "GEMINI_API_KEY no_key_env = []" by (simp add: no_key_env_def)
  have e: "collection empty_world = []" "bulk_writes empty_world = []" by (simp_all add: empty_world_def)
  from upsert_chunks_embedding_failure_atomic
         [of "[(1, ''t'')]" down_collaborators key_env empty_world "CollaboratorError ''unreachable''"
             "''d''" "''n''" "[(1, ''t'')]" 1200 200 "empty_world\<lparr>embed_requests := [''t'']\<rparr>"]
       upsert_chunks_embedding_failure_atomic
         [of "[(1, ''t'')]" down_collaborators no_key_env empty_world "CollaboratorError ''unreachable''"
             "''d''" "''n''" "[]" 1200 200 empty_world]
       upsert_chunks_embedding_failure_atomic
         [of "[]" down_collaborators no_key_env empty_world "CollaboratorError ''unreachable''"
             "''d''" "''n''" "[]" 1200 200 empty_world]
       h1 h2 e ingest_one_page_down
  show ?thesis by simp
qed

text \<open>
  Claim C3 as stated has every ingestion raise when the API key is absent. A document
  without chunks is ingested without raising: the result is 0.
\<close>

theorem upsert_chunks_no_key_empty_counterexample:
  "ensure_gemini_configured no_key_env
     = Inl (RuntimeError
         ''GEMINI_API_KEY missing. Add it to your .env before running embeddings or generation.'')
   \<and> upsert_chunks down_collaborators no_key_env ''d'' ''n'' [] empty_world = (Inr 0, empty_world)"
  by (simp add: ensure_gemini_configured_def no_key_env_def upsert_chunks_def)

section \<open>Retrieval\<close>










section \<open>Context assembly\<close>

lemma context_part_explicit:
  "context_part r =
     ''[Source: ''
     @ (case hit_metadata r of None \<Rightarrow> ''Doc''
        | Some m \<Rightarrow> (case doc_name m of None \<Rightarrow> ''Doc'' | Some n \<Rightarrow> n))
     @ '', Page ''
     @ (case hit_metadata r of None \<Rightarrow> ''?''
        | Some m \<Rightarrow> (case page m of None \<Rightarrow> ''?'' | Some p \<Rightarrow> str_of_int p))
     @ '']'' @ [CHR 0x0A]
     @ (case hit_text r of None \<Rightarrow> [] | Some t \<Rightarrow> t)"
  by (simp add: context_part_def Let_def split: option.splits)

text \<open>
  Claim C6 (context assembly), as the code has it: \<^verbatim>\<open>build_context\<close> renders one block per
  hit, in the given order, and joins the blocks with a blank line; nothing is
  deduplicated, a hit given twice is rendered twice. A block is the header line
  \<^verbatim>\<open>[Source: <doc_name>, Page <page>]\<close>, in square brackets, followed by the text of the hit
  (nothing when the hit has no text); a missing document name is rendered as \<^verbatim>\<open>Doc\<close> and
  a missing page as \<^verbatim>\<open>?\<close>. The function has a value on every list of hits.
\<close>

theorem build_context_blocks:
  "build_context [] = []
   \<and> build_context [r] = context_part r
   \<and> build_context (r # r' # rs) = context_part r @ [CHR 0x0A, CHR 0x0A] @ build_context (r' # rs)
   \<and> build_context [r, r] = context_part r @ [CHR 0x0A, CHR 0x0A] @ context_part r
   \<and> context_part r =
       ''[Source: ''
       @ (case hit_metadata r of None \<Rightarrow> ''Doc''
          | Some m \<Rightarrow> (case doc_name m of None \<Rightarrow> ''Doc'' | Some n \<Rightarrow> n))
       @ '', Page ''
       @ (case hit_metadata r of None \<Rightarrow> ''?''
          | Some m \<Rightarrow> (case page m of None \<Rightarrow> ''?'' | Some p \<Rightarrow> str_of_int p))
       @ '']'' @ [CHR 0x0A]
       @ (case hit_text r of None \<Rightarrow> [] | Some t \<Rightarrow> t)"
  using context_part_explicit[of r] by (simp add: build_context_def)

text \<open>A hit with all its fields, followed by a hit with none.\<close>

lemma str_of_int_1: "str_of_int 1 = ''1''"
  by code_simp

lemma build_context_example:
  "build_context [hit_a1, hit_bare] =
     ''[Source: a, Page 1]'' @ [CHR 0x0A] @ ''T'' @ [CHR 0x0A, CHR 0x0A] @ ''[Source: Doc, Page ?]'' @ [CHR 0x0A]"
  by (simp add: build_context_def context_part_def hit_a1_def hit_bare_def str_of_int_1)

text \<open>
  Claim C6 as stated gives the header line as \<^verbatim>\<open>Source: <doc_name>, Page <page>\<close>. The
  header the code writes is enclosed in square brackets.
\<close>

theorem build_context_header_counterexample:
  "build_context [hit_a1] \<noteq> ''Source: a, Page 1'' @ [CHR 0x0A] @ ''T''"
  by (simp add: build_context_def context_part_def hit_a1_def str_of_int_1)

section \<open>Synthesis\<close>



end
